theory Spec2Isabelle
  imports Complex_Main "HOL-Library.Sublist"
begin

section \<open>Characters and strings of the Python runtime\<close>

text \<open>
  A Python \<open>str\<close> is modelled as a \<open>string\<close> whose characters are the code points
  U+0000 to U+00FF. The three character classes below are the ones that \<open>str.lower\<close>,
  the regular expression classes \<open>\s\<close> and \<open>\w\<close>, \<open>str.strip\<close> and \<open>str.split\<close> use
  on that range: \<open>is_space\<close> is \<open>str.isspace\<close>, \<open>is_word\<close> is alphanumeric-or-underscore,
  \<open>lower_char\<close> moves A-Z and the Latin-1 capitals down by 32.
\<close>

definition is_space :: "char \<Rightarrow> bool" where
  "is_space c =
     (let n = (of_char c :: nat)
      in (9 \<le> n \<and> n \<le> 13) \<or> (28 \<le> n \<and> n \<le> 32) \<or> n = 133 \<or> n = 160)"

definition is_word :: "char \<Rightarrow> bool" where
  "is_word c =
     (let n = (of_char c :: nat)
      in (48 \<le> n \<and> n \<le> 57) \<or> (65 \<le> n \<and> n \<le> 90) \<or> n = 95 \<or> (97 \<le> n \<and> n \<le> 122)
         \<or> n = 170 \<or> n = 178 \<or> n = 179 \<or> n = 181 \<or> n = 185 \<or> n = 186
         \<or> (188 \<le> n \<and> n \<le> 190) \<or> (192 \<le> n \<and> n \<le> 214) \<or> (216 \<le> n \<and> n \<le> 246)
         \<or> 248 \<le> n)"

definition lower_char :: "char \<Rightarrow> char" where
  "lower_char c =
     (let n = (of_char c :: nat)
      in if (65 \<le> n \<and> n \<le> 90) \<or> (192 \<le> n \<and> n \<le> 214) \<or> (216 \<le> n \<and> n \<le> 222)
         then char_of (n + 32) else c)"

text \<open>\<open>text.lower()\<close>.\<close>

definition lower :: "string \<Rightarrow> string" where
  "lower s = map lower_char s"

text \<open>The class \<open>[/_\-\|&]\<close> of the first substitution of \<open>normalize_text\<close>.\<close>

definition is_sep :: "char \<Rightarrow> bool" where
  "is_sep c = (c \<in> set ''/_-|&'')"

text \<open>\<open>text.strip()\<close>: whitespace is dropped at both ends.\<close>

definition strip :: "string \<Rightarrow> string" where
  "strip s = rev (dropWhile is_space (rev (dropWhile is_space s)))"

text \<open>
  \<open>re.sub(r'[...]+', ' ', s)\<close> for a character class \<open>p\<close>: every maximal run of
  characters of the class becomes one blank.
\<close>

function sub_runs :: "(char \<Rightarrow> bool) \<Rightarrow> string \<Rightarrow> string" where
  "sub_runs p [] = []"
| "sub_runs p (c # cs) =
     (if p c then CHR '' '' # sub_runs p (dropWhile p cs) else c # sub_runs p cs)"
  by pat_completeness auto
termination
  by (relation "measure (\<lambda>(p, s). length s)") (auto simp: length_dropWhile_le less_Suc_eq_le)

text \<open>\<open>re.sub(r'[^\w\s]', ' ', s)\<close>: each character that is neither word nor space becomes a blank.\<close>

definition sub_other :: "string \<Rightarrow> string" where
  "sub_other s = map (\<lambda>c. if \<not> is_word c \<and> \<not> is_space c then CHR '' '' else c) s"

text \<open>
  \<open>s.split()\<close>: the maximal runs of non-space characters, in order.
\<close>

function str_split :: "string \<Rightarrow> string list" where
  "str_split s =
     (case dropWhile is_space s of
        [] \<Rightarrow> []
      | c # cs \<Rightarrow> (c # takeWhile (\<lambda>x. \<not> is_space x) cs)
                  # str_split (dropWhile (\<lambda>x. \<not> is_space x) cs))"
  by pat_completeness auto
termination
proof (relation "measure length", goal_cases)
  case 1
  show ?case by simp
next
  case (2 s c cs)
  have "length (dropWhile (\<lambda>x. \<not> is_space x) cs) \<le> length cs"
    by (rule length_dropWhile_le)
  moreover have "length (dropWhile is_space s) \<le> length s"
    by (rule length_dropWhile_le)
  ultimately show ?case using 2 by simp
qed

text \<open>\<open>w in content\<close> on strings: \<open>w\<close> occurs in \<open>content\<close> as a contiguous piece.\<close>

fun str_in :: "string \<Rightarrow> string \<Rightarrow> bool" where
  "str_in w [] = (w = [])"
| "str_in w (c # cs) = (prefix w (c # cs) \<or> str_in w cs)"

text \<open>
  \<open>s.replace(old, new)\<close>: one scan from the left, each occurrence found is replaced and
  the scan goes on behind it. Every call of the source passes a literal \<open>old\<close> that is not
  empty; for an empty \<open>old\<close> this definition returns \<open>s\<close>, which no call reaches.
\<close>

function str_replace :: "string \<Rightarrow> string \<Rightarrow> string \<Rightarrow> string" where
  "str_replace old new [] = []"
| "str_replace old new (c # cs) =
     (if old \<noteq> [] \<and> prefix old (c # cs)
      then new @ str_replace old new (drop (length old) (c # cs))
      else c # str_replace old new cs)"
  by pat_completeness auto
termination
  by (relation "measure (\<lambda>(old, new, s). length s)") (auto simp: neq_Nil_conv)

section \<open>Text Normalizer\<close>

text \<open>
  \<open>normalize_text\<close> (lines 80-97). The argument is \<open>None\<close> or a string: a row read by
  \<open>csv.DictReader\<close> holds \<open>None\<close> for the columns a short line lacks, and \<open>if not text\<close>
  returns the empty string for \<open>None\<close> as it does for \<open>''\<close>.
\<close>

definition normalize_text :: "string option \<Rightarrow> string" where
  "normalize_text text =
     (case text of
        None \<Rightarrow> []
      | Some t \<Rightarrow>
          if t = [] then []
          else sub_runs is_space (strip (sub_other (sub_runs is_sep (lower t)))))"

section \<open>URL Decomposer\<close>

text \<open>
  \<open>urllib.parse.urlparse\<close> is library code outside the repository. It is a parameter of
  the model: a function from the URL to the parsed result, of which the source reads
  \<open>netloc\<close> and \<open>path\<close>, or to the exception it raises.
\<close>

datatype exn = ValueError

record parsed =
  netloc :: string
  path :: string

type_synonym url_parser = "string \<Rightarrow> exn + parsed"

text \<open>The body of the \<open>try\<close> block behind the call of \<open>urlparse\<close> (lines 107-110).\<close>

definition url_words :: "parsed \<Rightarrow> string" where
  "url_words p =
     (let domain_parts =
            str_replace ''.'' '' '' (str_replace ''.com'' [] (str_replace ''www.'' [] (netloc p)));
          path_parts =
            str_replace ''_'' '' '' (str_replace ''-'' '' '' (str_replace ''/'' '' '' (path p)))
      in normalize_text (Some (domain_parts @ '' '' @ path_parts)))"

text \<open>
  \<open>extract_url_components\<close> (lines 99-112). The bare \<open>except:\<close> turns every exception of
  the \<open>try\<close> block into the empty string.
\<close>

definition extract_url_components :: "url_parser \<Rightarrow> string \<Rightarrow> string" where
  "extract_url_components urlparse u =
     (if u = [] then []
      else case urlparse u of
             Inl e \<Rightarrow> []
           | Inr p \<Rightarrow> url_words p)"

section \<open>Candidate records\<close>

text \<open>
  A row of the site export is a \<open>dict\<close> from column names to \<open>None\<close> or a string.
\<close>

type_synonym row = "string \<rightharpoonup> string option"

text \<open>\<open>row.get(k, '')\<close>.\<close>

definition row_get :: "row \<Rightarrow> string \<Rightarrow> string option" where
  "row_get r k = (case r k of None \<Rightarrow> Some [] | Some v \<Rightarrow> v)"

text \<open>
  The aliases of the address column, in the order the source tries them. The second one
  starts with the byte order mark U+FEFF, which lies outside the modelled range of code
  points; it is written here as its three UTF-8 bytes, which keeps the five keys distinct.
\<close>

definition addr_keys :: "string list" where
  "addr_keys =
     [''Address'', CHR 0xEF # CHR 0xBB # CHR 0xBF # ''Address'',
      CHR 0x22 # ''Address'' @ [CHR 0x22], ''address'', ''URL'']"

text \<open>
  The loop over the aliases with its \<open>break\<close> (lines 124-128 and 190-194): the first key
  that is present with a non-empty value gives the URL, stripped; none gives \<open>''\<close>.
\<close>

fun resolve_url :: "row \<Rightarrow> string list \<Rightarrow> string" where
  "resolve_url r [] = []"
| "resolve_url r (addr_key # ks) =
     (case r addr_key of
        Some (Some v) \<Rightarrow> if v \<noteq> [] then strip v else resolve_url r ks
      | _ \<Rightarrow> resolve_url r ks)"

section \<open>Field Scorer\<close>

text \<open>
  Scores are Python floats in the source and exact rationals here. The list
  \<open>content_fields\<close> (lines 124-147) pairs each normalized field with its weight. In this
  model of rows no step of the \<open>try\<close> block of lines 123-134 can raise, so its handler
  has no branch.
\<close>

definition content_fields :: "url_parser \<Rightarrow> row \<Rightarrow> (string \<times> rat) list" where
  "content_fields urlparse r =
     (let u = resolve_url r addr_keys;
          title = normalize_text (row_get r ''Title 1'');
          h1 = normalize_text (row_get r ''H1-1'');
          h2 = normalize_text (row_get r ''H2-1'');
          meta_desc = normalize_text (row_get r ''Meta Description 1'');
          meta_keywords = normalize_text (row_get r ''Meta Keywords 1'');
          url_components = extract_url_components urlparse u
      in [(title, 5), (h1, 4), (url_components, 3), (meta_desc, 2), (h2, 3 / 2),
          (meta_keywords, 5 / 2)])"

text \<open>The loop of lines 149-165, with \<open>total_score\<close> as the accumulator.\<close>

fun score_fields :: "string list \<Rightarrow> (string \<times> rat) list \<Rightarrow> rat \<Rightarrow> rat" where
  "score_fields keyword_words [] total_score = total_score"
| "score_fields keyword_words ((content, weight) # fs) total_score =
     (if content = [] then score_fields keyword_words fs total_score
      else
        let word_matches = length (filter (\<lambda>w. str_in w content) keyword_words)
        in if word_matches > 0
           then score_fields keyword_words fs
                  (total_score
                   + (of_nat word_matches / of_nat (length keyword_words)) * 10 * weight)
           else score_fields keyword_words fs total_score)"

text \<open>\<open>calculate_match_score\<close> (lines 114-171).\<close>

definition calculate_match_score :: "url_parser \<Rightarrow> string \<Rightarrow> row \<Rightarrow> rat" where
  "calculate_match_score urlparse keyword r =
     (let keyword_words = str_split (normalize_text (Some keyword))
      in if keyword_words = [] then 0
         else score_fields keyword_words (content_fields urlparse r) 0)"

section \<open>Match Selector and Mapping Store\<close>

text \<open>The dictionary \<open>best_match\<close> built in lines 196-203.\<close>

record match =
  match_url :: string
  match_score :: rat
  match_title :: "string option"
  match_h1 :: "string option"
  match_meta_description :: "string option"
  match_row_data :: row

definition make_match :: "row \<Rightarrow> rat \<Rightarrow> match" where
  "make_match r sc =
     \<lparr>match_url = resolve_url r addr_keys,
      match_score = sc,
      match_title = row_get r ''Title 1'',
      match_h1 = row_get r ''H1-1'',
      match_meta_description = row_get r ''Meta Description 1'',
      match_row_data = r\<rparr>"

text \<open>
  \<open>final_mappings\<close>: a keyword that is a key of the dictionary maps to its match or to
  Python's \<open>None\<close>.
\<close>

type_synonym store = "string \<rightharpoonup> match option"

text \<open>
  The loop over \<open>urls_data\<close> for one keyword (lines 183-212). The state is
  \<open>(best_score, best_match, final_mappings)\<close>. The test against the threshold and the
  write to \<open>final_mappings\<close> (lines 207-212) stand inside the loop body, as the source
  indents them.
\<close>

fun scan_rows ::
  "url_parser \<Rightarrow> string \<Rightarrow> row list \<Rightarrow> rat \<times> match option \<times> store \<Rightarrow> rat \<times> match option \<times> store"
where
  "scan_rows urlparse keyword [] st = st"
| "scan_rows urlparse keyword (r # rs) (best_score, best_match, final_mappings) =
     (let sc = calculate_match_score urlparse keyword r;
          best_score' = (if sc > best_score then sc else best_score);
          best_match' = (if sc > best_score then Some (make_match r sc) else best_match);
          final_mappings' =
            (if best_match' \<noteq> None \<and> best_score' \<ge> 5
             then final_mappings(keyword \<mapsto> best_match')
             else final_mappings(keyword \<mapsto> None))
      in scan_rows urlparse keyword rs (best_score', best_match', final_mappings'))"

text \<open>The loop over the keywords (lines 179-181).\<close>

fun process_keywords :: "url_parser \<Rightarrow> string list \<Rightarrow> row list \<Rightarrow> store \<Rightarrow> store" where
  "process_keywords urlparse [] urls_data final_mappings = final_mappings"
| "process_keywords urlparse (keyword # ks) urls_data final_mappings =
     process_keywords urlparse ks urls_data
       (snd (snd (scan_rows urlparse keyword urls_data (0, None, final_mappings))))"

text \<open>\<open>find_best_matches\<close> (lines 173-215), returning the dictionary it leaves in \<open>self\<close>.\<close>

definition find_best_matches :: "url_parser \<Rightarrow> string list \<Rightarrow> row list \<Rightarrow> store" where
  "find_best_matches urlparse keywords urls_data =
     process_keywords urlparse keywords urls_data Map.empty"

section \<open>Report rows\<close>

record out_row =
  keyword_col :: string
  matched_url :: string
  match_score_col :: string
  page_title :: string
  h1_heading :: string
  meta_description :: string
  match_quality :: string

text \<open>\<open>(v or '')[:n]\<close>.\<close>

definition truncated :: "nat \<Rightarrow> string option \<Rightarrow> string" where
  "truncated n v = (case v of None \<Rightarrow> [] | Some s \<Rightarrow> take n s)"

text \<open>
  The row that \<open>save_results\<close> writes for one keyword (lines 229-267). The rendering
  \<open>f"{score:.2f}"\<close> of a float is the parameter \<open>fmt\<close>.
\<close>

definition result_row :: "(rat \<Rightarrow> string) \<Rightarrow> store \<Rightarrow> string \<Rightarrow> out_row" where
  "result_row fmt final_mappings keyword =
     (case final_mappings keyword of
        Some (Some mapping) \<Rightarrow>
          let u = (if match_url mapping = [] then ''URL_ERROR'' else match_url mapping);
              sc = match_score mapping;
              quality =
                (if sc \<ge> 40 then ''Excellent''
                 else if sc \<ge> 25 then ''Good''
                 else if sc \<ge> 15 then ''Fair''
                 else ''Weak'')
          in \<lparr>keyword_col = keyword,
              matched_url = u,
              match_score_col = fmt sc,
              page_title = truncated 150 (match_title mapping),
              h1_heading = truncated 100 (match_h1 mapping),
              meta_description = truncated 200 (match_meta_description mapping),
              match_quality = quality\<rparr>
      | _ \<Rightarrow>
          \<lparr>keyword_col = keyword,
           matched_url = ''NO_MATCH'',
           match_score_col = ''0.00'',
           page_title = [],
           h1_heading = [],
           meta_description = [],
           match_quality = ''None''\<rparr>)"

text \<open>
  \<open>save_results\<close> (lines 217-275): the data rows of the CSV file, in the order written.
\<close>

definition save_results :: "(rat \<Rightarrow> string) \<Rightarrow> string list \<Rightarrow> store \<Rightarrow> out_row list" where
  "save_results fmt keywords final_mappings = map (result_row fmt final_mappings) keywords"

section \<open>Normal form of normalized text\<close>

text \<open>
  Two predicates that describe the output of \<open>normalize_text\<close>: \<open>keep\<close> holds of the
  characters that every step of the normalizer leaves alone, and \<open>spaced\<close> says that
  the only whitespace is a single blank followed by a character that is not whitespace.
\<close>

definition keep :: "char \<Rightarrow> bool" where
  "keep c = (lower_char c = c \<and> \<not> is_sep c \<and> (is_word c \<or> is_space c))"

fun spaced :: "string \<Rightarrow> bool" where
  "spaced [] = True"
| "spaced (c # cs) =
     (if is_space c then c = CHR '' '' \<and> cs \<noteq> [] \<and> \<not> is_space (hd cs) \<and> spaced cs
      else spaced cs)"

section \<open>The score as the specification words it\<close>



section \<open>The URL words as the specification words them\<close>

text \<open>
  \<open>blank_out cs\<close> replaces each character of \<open>cs\<close> by a blank. \<open>strip_leading\<close>
  removes a literal only where the string starts with it. \<open>claimed_url_words\<close> is the
  decomposition with \<open>www.\<close> stripped at the start of the host only.
\<close>

definition strip_leading :: "string \<Rightarrow> string \<Rightarrow> string" where
  "strip_leading lit s = (if prefix lit s then drop (length lit) s else s)"

definition blank_out :: "string \<Rightarrow> string \<Rightarrow> string" where
  "blank_out cs s = map (\<lambda>c. if c \<in> set cs then CHR '' '' else c) s"

definition claimed_url_words :: "parsed \<Rightarrow> string" where
  "claimed_url_words p =
     (let host_words =
            blank_out ''.'' (str_replace ''.com'' [] (strip_leading ''www.'' (netloc p)));
          path_words = blank_out ''/-_'' (path p)
      in normalize_text (Some (host_words @ '' '' @ path_words)))"

section \<open>The leader of a scan\<close>

text \<open>
  \<open>best_scan\<close> is \<open>scan_rows\<close> without the dictionary: the pair
  \<open>(best_score, best_match)\<close> after the rows. \<open>accepted\<close> is the value lines 207-211
  store for such a pair, and \<open>leader\<close> is the invariant of the pair: nothing chosen yet
  at score 0, or the match of a row of \<open>R\<close> at its own, positive score.
\<close>

fun best_scan :: "url_parser \<Rightarrow> string \<Rightarrow> row list \<Rightarrow> rat \<times> match option \<Rightarrow> rat \<times> match option" where
  "best_scan urlparse keyword [] st = st"
| "best_scan urlparse keyword (r # rs) (best_score, best_match) =
     (let sc = calculate_match_score urlparse keyword r
      in best_scan urlparse keyword rs
           (if sc > best_score then (sc, Some (make_match r sc)) else (best_score, best_match)))"

definition accepted :: "rat \<times> match option \<Rightarrow> match option" where
  "accepted st = (if snd st \<noteq> None \<and> fst st \<ge> 5 then snd st else None)"


section \<open>The normalizer is idempotent\<close>

lemma lower_char_idem: "lower_char (lower_char c) = lower_char c"
  by (auto simp: lower_char_def Let_def)

lemma lower_char_blank: "lower_char (CHR '' '') = CHR '' ''"
  by (simp add: lower_char_def)

lemma is_space_blank: "is_space (CHR '' '')"
  by (simp add: is_space_def)

lemma not_sep_blank: "\<not> is_sep (CHR '' '')"
  by (simp add: is_sep_def)

lemma keep_blank: "keep (CHR '' '')"
  by (simp add: keep_def lower_char_blank is_space_blank not_sep_blank)

lemma set_sub_runs: "set (sub_runs p s) \<subseteq> insert (CHR '' '') {c \<in> set s. \<not> p c}"
proof (induction p s rule: sub_runs.induct)
  case (1 p)
  show ?case by simp
next
  case (2 p c cs)
  show ?case
  proof (cases "p c")
    case True
    with 2 have "set (sub_runs p (dropWhile p cs)) \<subseteq> insert (CHR '' '') {c \<in> set (dropWhile p cs). \<not> p c}"
      by simp
    moreover have "set (dropWhile p cs) \<subseteq> set cs"
      by (auto dest: set_dropWhileD)
    ultimately show ?thesis using True by auto
  next
    case False
    with 2 show ?thesis by auto
  qed
qed

lemma sub_runs_id: "\<forall>c \<in> set s. \<not> p c \<Longrightarrow> sub_runs p s = s"
  by (induction s) auto

lemma keep_pipeline: "c \<in> set (sub_other (sub_runs is_sep (lower x))) \<Longrightarrow> keep c"
proof -
  assume a: "c \<in> set (sub_other (sub_runs is_sep (lower x)))"
  then obtain d where d: "d \<in> set (sub_runs is_sep (lower x))"
    and c: "c = (if \<not> is_word d \<and> \<not> is_space d then CHR '' '' else d)"
    by (auto simp: sub_other_def)
  show "keep c"
  proof (cases "\<not> is_word d \<and> \<not> is_space d")
    case True
    with c show ?thesis by (simp add: keep_blank)
  next
    case False
    from d set_sub_runs[of is_sep "lower x"]
    have "d = CHR '' '' \<or> (d \<in> set (lower x) \<and> \<not> is_sep d)" by auto
    then show ?thesis
    proof
      assume "d = CHR '' ''" with c show ?thesis by (auto simp: keep_blank)
    next
      assume h: "d \<in> set (lower x) \<and> \<not> is_sep d"
      then obtain e where "d = lower_char e" by (auto simp: lower_def)
      then have "lower_char d = d" by (simp add: lower_char_idem)
      with h False c show ?thesis by (auto simp: keep_def)
    qed
  qed
qed

lemma spaced_sub_runs_id: "spaced s \<Longrightarrow> sub_runs is_space s = s"
proof (induction s)
  case Nil
  show ?case by simp
next
  case (Cons c cs)
  show ?case
  proof (cases "is_space c")
    case True
    with Cons.prems have h: "c = CHR '' ''" "cs \<noteq> []" "\<not> is_space (hd cs)" "spaced cs"
      by auto
    then have "dropWhile is_space cs = cs" by (cases cs) auto
    with True h Cons.IH show ?thesis by simp
  next
    case False
    with Cons show ?thesis by simp
  qed
qed

lemma spaced_last: "spaced s \<Longrightarrow> s \<noteq> [] \<Longrightarrow> \<not> is_space (last s)"
  by (induction s) (auto split: if_splits)

lemma strip_id: "s \<noteq> [] \<Longrightarrow> \<not> is_space (hd s) \<Longrightarrow> \<not> is_space (last s) \<Longrightarrow> strip s = s"
proof -
  assume a: "s \<noteq> []" "\<not> is_space (hd s)" "\<not> is_space (last s)"
  then have 1: "dropWhile is_space s = s" by (cases s) auto
  from a have "rev s \<noteq> []" "\<not> is_space (hd (rev s))" by (auto simp: hd_rev)
  then have "dropWhile is_space (rev s) = rev s" by (cases "rev s") auto
  with 1 show ?thesis by (simp add: strip_def)
qed

lemma strip_ends:
  "strip t = [] \<or> (\<not> is_space (hd (strip t)) \<and> \<not> is_space (last (strip t)))"
proof -
  define a where "a = dropWhile is_space t"
  define b where "b = dropWhile is_space (rev a)"
  have s: "strip t = rev b" by (simp add: strip_def a_def b_def)
  show ?thesis
  proof (cases "b = []")
    case True
    with s show ?thesis by simp
  next
    case False
    then have hb: "\<not> is_space (hd b)" unfolding b_def by (simp add: hd_dropWhile)
    from False have an: "a \<noteq> []" unfolding b_def by auto
    then have ha: "\<not> is_space (hd a)" unfolding a_def by (simp add: hd_dropWhile)
    obtain u where "rev a = u @ b" unfolding b_def
      by (metis takeWhile_dropWhile_id)
    with False have "last b = last (rev a)" by simp
    with an have "last b = hd a" by (simp add: last_rev)
    with ha hb s False show ?thesis by (simp add: hd_rev last_rev)
  qed
qed

lemma sub_runs_hd:
  "u \<noteq> [] \<Longrightarrow> \<not> p (hd u) \<Longrightarrow> sub_runs p u \<noteq> [] \<and> hd (sub_runs p u) = hd u"
  by (cases u) auto

lemma spaced_sub_runs:
  "u = [] \<or> \<not> is_space (last u) \<Longrightarrow> spaced (sub_runs is_space u)"
proof (induction is_space u rule: sub_runs.induct)
  case 1
  show ?case by simp
next
  case (2 c cs)
  show ?case
  proof (cases "is_space c")
    case True
    define d where "d = dropWhile is_space cs"
    from 2(3) True have cs: "cs \<noteq> []" "\<not> is_space (last cs)" by (auto split: if_splits)
    then have "last cs \<in> set cs" by simp
    with cs have dn: "d \<noteq> []" unfolding d_def by auto
    then have hd: "\<not> is_space (hd d)" unfolding d_def by (simp add: hd_dropWhile)
    obtain v where "cs = v @ d" unfolding d_def by (metis takeWhile_dropWhile_id)
    with dn have "last d = last cs" by simp
    with cs have "\<not> is_space (last d)" by simp
    with 2(1) True have sp: "spaced (sub_runs is_space d)" unfolding d_def by simp
    from sub_runs_hd[of d is_space] dn True sp hd show ?thesis
      by (simp add: d_def is_space_blank)
  next
    case False
    from 2(3) False have "cs = [] \<or> \<not> is_space (last cs)" by (auto split: if_splits)
    with 2(2) False show ?thesis by simp
  qed
qed

lemma sub_runs_nonempty: "u \<noteq> [] \<Longrightarrow> sub_runs p u \<noteq> []"
  by (cases u) auto

lemma normalize_text_fixed:
  assumes sp: "spaced r" and hd: "r \<noteq> [] \<longrightarrow> \<not> is_space (hd r)"
    and k: "\<forall>c \<in> set r. keep c"
  shows "normalize_text (Some r) = r"
proof (cases "r = []")
  case True
  then show ?thesis by (simp add: normalize_text_def)
next
  case False
  from k have 1: "lower r = r" by (simp add: lower_def keep_def map_idI)
  from k have 2: "sub_runs is_sep r = r" by (intro sub_runs_id) (simp add: keep_def)
  from k have 3: "sub_other r = r" unfolding sub_other_def by (intro map_idI) (auto simp: keep_def)
  from False sp hd have 4: "strip r = r" by (intro strip_id) (auto dest: spaced_last)
  from sp have 5: "sub_runs is_space r = r" by (rule spaced_sub_runs_id)
  from False 1 2 3 4 5 show ?thesis by (simp add: normalize_text_def)
qed

lemma normalize_text_tidy:
  "spaced (normalize_text x) \<and> (normalize_text x \<noteq> [] \<longrightarrow> \<not> is_space (hd (normalize_text x)))
   \<and> (\<forall>c \<in> set (normalize_text x). keep c)"
proof (cases x)
  case None
  then show ?thesis by (simp add: normalize_text_def)
next
  case (Some t)
  show ?thesis
  proof (cases "t = []")
    case True
    with Some show ?thesis by (simp add: normalize_text_def)
  next
    case False
    define u where "u = strip (sub_other (sub_runs is_sep (lower t)))"
    have n: "normalize_text x = sub_runs is_space u"
      using Some False by (simp add: normalize_text_def u_def)
    have e: "u = [] \<or> (\<not> is_space (hd u) \<and> \<not> is_space (last u))"
      unfolding u_def by (rule strip_ends)
    then have a: "spaced (sub_runs is_space u)" by (intro spaced_sub_runs) auto
    have b: "sub_runs is_space u \<noteq> [] \<longrightarrow> \<not> is_space (hd (sub_runs is_space u))"
    proof (cases "u = []")
      case True then show ?thesis by simp
    next
      case False
      with e sub_runs_hd[of u is_space] show ?thesis by auto
    qed
    have "set u \<subseteq> set (sub_other (sub_runs is_sep (lower t)))"
      unfolding u_def strip_def by (auto dest!: set_dropWhileD)
    then have ku: "\<forall>c \<in> set u. keep c" by (auto intro: keep_pipeline)
    have c: "\<forall>c \<in> set (sub_runs is_space u). keep c"
      using set_sub_runs[of is_space u] ku keep_blank by auto
    from n a b c show ?thesis by simp
  qed
qed

text \<open>
  C6. \<open>normalize_text\<close> is a function of its argument alone; normalizing a normalized
  text changes nothing, and both the absent text and the empty text normalize to the
  empty text.
\<close>

theorem normalize_text_idempotent:
  "normalize_text (Some (normalize_text x)) = normalize_text x
   \<and> normalize_text None = [] \<and> normalize_text (Some []) = []"
proof -
  have "normalize_text (Some (normalize_text x)) = normalize_text x"
    using normalize_text_tidy[of x] by (intro normalize_text_fixed) auto
  then show ?thesis by (simp add: normalize_text_def)
qed

section \<open>The match score\<close>









section \<open>Selection of the best match\<close>

lemma scan_rows_best_scan:
  "scan_rows up kw rs (bs, bm, fm) =
     (fst (best_scan up kw rs (bs, bm)), snd (best_scan up kw rs (bs, bm)),
      if rs = [] then fm else fm(kw \<mapsto> accepted (best_scan up kw rs (bs, bm))))"
proof (induction rs arbitrary: bs bm fm)
  case Nil
  show ?case by simp
next
  case (Cons r rs)
  show ?case
  proof (cases rs)
    case Nil
    then show ?thesis by (auto simp: Let_def accepted_def fun_upd_def)
  next
    case (Cons a list)
    then have ne: "rs \<noteq> []" by simp
    show ?thesis
      by (simp only: scan_rows.simps best_scan.simps Let_def Cons.IH) (auto simp: ne fun_upd_def)
  qed
qed

lemma process_keywords_empty: "process_keywords up kws [] fm = fm"
  by (induction kws arbitrary: fm) simp_all

lemma process_keywords_entry:
  "rs \<noteq> [] \<Longrightarrow>
   process_keywords up kws rs fm k =
     (if k \<in> set kws then Some (accepted (best_scan up k rs (0, None))) else fm k)"
proof (induction kws arbitrary: fm)
  case Nil
  show ?case by simp
next
  case (Cons kw kws)
  then show ?case by (simp add: scan_rows_best_scan)
qed

















text \<open>
  C1. With an empty list of records the loop body that writes \<open>final_mappings\<close> never
  runs: no keyword has an entry after the pass. With at least one record the keys of
  the dictionary are the keywords (\<open>find_best_matches_dom\<close>).
\<close>

theorem empty_export_leaves_store_empty:
  "find_best_matches urlparse [''red shoes''] [] ''red shoes'' = None
   \<and> find_best_matches urlparse keywords [] = Map.empty"
  by (simp add: find_best_matches_def process_keywords_empty)

lemma find_best_matches_dom:
  "urls_data \<noteq> [] \<Longrightarrow> dom (find_best_matches urlparse keywords urls_data) = set keywords"
  by (auto simp: find_best_matches_def process_keywords_entry dom_def)

section \<open>The URL Decomposer\<close>

lemma str_replace_char: "str_replace [c] [d] s = map (\<lambda>x. if x = c then d else x) s"
  by (induction s) auto

lemma path_parts_blank_out:
  "str_replace ''_'' '' '' (str_replace ''-'' '' '' (str_replace ''/'' '' '' s)) = blank_out ''/-_'' s"
  by (simp add: str_replace_char blank_out_def)

lemma domain_dots_blank_out: "str_replace ''.'' '' '' s = blank_out ''.'' s"
  by (simp add: str_replace_char blank_out_def)

lemma www_no_overlap:
  "\<not> prefix ''www.'' (c # a) \<Longrightarrow> \<not> prefix ''www.'' ((c # a) @ ''www.'' @ b)"
  by (cases a; cases "tl a"; cases "tl (tl a)") auto

lemma str_replace_www_inner:
  "\<not> sublist ''www.'' a \<Longrightarrow>
   str_replace ''www.'' [] (a @ ''www.'' @ b) = a @ str_replace ''www.'' [] b"
proof (induction a)
  case Nil
  show ?case by simp
next
  case (Cons c a)
  from Cons.prems have np: "\<not> prefix ''www.'' (c # a)" and ns: "\<not> sublist ''www.'' a"
    by (auto simp: sublist_Cons_right)
  from www_no_overlap[OF np, of b] have "\<not> prefix ''www.'' (c # (a @ ''www.'' @ b))" by simp
  then have "str_replace ''www.'' [] ((c # a) @ ''www.'' @ b)
               = c # str_replace ''www.'' [] (a @ ''www.'' @ b)"
    by (simp del: prefix_code)
  with Cons.IH[OF ns] show ?case by simp
qed

text \<open>
  C5, as amended. For a URL that is not empty and parses, the decomposer deletes every
  occurrence of \<open>www.\<close> that a scan of the host from the left finds, at the start or
  further in, then every occurrence of \<open>.com\<close> in what is left, blanks out the dots
  that remain and the characters \<open>/\<close>, \<open>-\<close>, \<open>_\<close> of the path, and normalizes the host
  words, a blank and the path words. The second part says that an occurrence of \<open>www.\<close>
  behind any prefix free of it is deleted like a leading one.
\<close>

theorem extract_url_components_words:
  "(u \<noteq> [] \<and> urlparse u = Inr p \<longrightarrow>
      extract_url_components urlparse u =
        normalize_text (Some (
          blank_out ''.'' (str_replace ''.com'' [] (str_replace ''www.'' [] (netloc p)))
          @ '' '' @ blank_out ''/-_'' (path p))))
   \<and> (\<not> sublist ''www.'' a \<longrightarrow>
        str_replace ''www.'' [] (a @ ''www.'' @ b) = a @ str_replace ''www.'' [] b)"
proof (intro conjI impI)
  assume "u \<noteq> [] \<and> urlparse u = Inr p"
  then show "extract_url_components urlparse u =
        normalize_text (Some (
          blank_out ''.'' (str_replace ''.com'' [] (str_replace ''www.'' [] (netloc p)))
          @ '' '' @ blank_out ''/-_'' (path p)))"
    by (simp add: extract_url_components_def url_words_def Let_def path_parts_blank_out
        domain_dots_blank_out del: str_replace.simps)
next
  assume "\<not> sublist ''www.'' a"
  then show "str_replace ''www.'' [] (a @ ''www.'' @ b) = a @ str_replace ''www.'' [] b"
    by (rule str_replace_www_inner)
qed

theorem extract_url_components_words_witness:
  "extract_url_components (\<lambda>u. Inr \<lparr>netloc = ''shop.www.example.com'', path = ''/red-shoes_1''\<rparr>)
      ''http://shop.www.example.com/red-shoes_1'' = ''shop example red shoes 1''
   \<and> str_replace ''www.'' [] (''shop.'' @ ''www.'' @ ''example.com'') = ''shop.'' @ str_replace ''www.'' [] ''example.com''"
proof -
  have a: "''http://shop.www.example.com/red-shoes_1'' \<noteq> []" by simp
  have b: "\<not> sublist ''www.'' ''shop.''" by code_simp
  have c: "normalize_text (Some (
          blank_out ''.'' (str_replace ''.com'' [] (str_replace ''www.'' [] ''shop.www.example.com''))
          @ '' '' @ blank_out ''/-_'' ''/red-shoes_1'')) = ''shop example red shoes 1''"
    by code_simp
  from a b c extract_url_components_words[of "''http://shop.www.example.com/red-shoes_1''"
      "\<lambda>u. Inr \<lparr>netloc = ''shop.www.example.com'', path = ''/red-shoes_1''\<rparr>"
      "\<lparr>netloc = ''shop.www.example.com'', path = ''/red-shoes_1''\<rparr>" "''shop.''" "''example.com''"]
  show ?thesis by simp
qed

text \<open>
  The host \<open>shop.www.example.com\<close> of \<open>http://shop.www.example.com/a\<close> loses its inner
  \<open>www.\<close>, which the decomposition that strips a leading \<open>www.\<close> only would keep.
\<close>

theorem url_words_leading_www_counterexample:
  "url_words \<lparr>netloc = ''shop.www.example.com'', path = ''/a''\<rparr> = ''shop example a''
   \<and> claimed_url_words \<lparr>netloc = ''shop.www.example.com'', path = ''/a''\<rparr>
       = ''shop www example a''
   \<and> url_words \<lparr>netloc = ''shop.www.example.com'', path = ''/a''\<rparr>
       \<noteq> claimed_url_words \<lparr>netloc = ''shop.www.example.com'', path = ''/a''\<rparr>"
  by code_simp

text \<open>
  C7. \<open>extract_url_components\<close> returns a string for every parser and every URL: the
  empty URL gives the empty string, and so does every URL on which the parser raises.
\<close>

theorem extract_url_components_no_raise:
  "extract_url_components urlparse [] = []
   \<and> (urlparse u = Inl e \<longrightarrow> extract_url_components urlparse u = [])"
  by (simp add: extract_url_components_def)

theorem extract_url_components_no_raise_witness:
  "extract_url_components (\<lambda>u. Inl ValueError) ''http://[bad'' = []"
  using extract_url_components_no_raise[of "\<lambda>u. Inl ValueError" "''http://[bad''" ValueError]
  by simp

section \<open>The result rows\<close>

text \<open>
  C9. \<open>save_results\<close> writes one row per keyword, in the order of the keywords. A keyword
  whose entry is a match gets the URL of the match, or \<open>URL_ERROR\<close> when that is empty,
  the quality Excellent from 40, Good from 25, Fair from 15 and Weak below, and title,
  h1 and meta description cut to 150, 100 and 200 characters. Every other keyword gets
  \<open>NO_MATCH\<close>, \<open>0.00\<close> and \<open>None\<close>.
\<close>

theorem save_results_rows:
  "length (save_results fmt keywords fm) = length keywords
   \<and> map keyword_col (save_results fmt keywords fm) = keywords
   \<and> (\<forall>i < length keywords.
        (case fm (keywords ! i) of
           Some (Some m) \<Rightarrow>
             matched_url (save_results fmt keywords fm ! i)
               = (if match_url m = [] then ''URL_ERROR'' else match_url m)
             \<and> match_score_col (save_results fmt keywords fm ! i) = fmt (match_score m)
             \<and> (40 \<le> match_score m \<longrightarrow>
                  match_quality (save_results fmt keywords fm ! i) = ''Excellent'')
             \<and> (25 \<le> match_score m \<and> match_score m < 40 \<longrightarrow>
                  match_quality (save_results fmt keywords fm ! i) = ''Good'')
             \<and> (15 \<le> match_score m \<and> match_score m < 25 \<longrightarrow>
                  match_quality (save_results fmt keywords fm ! i) = ''Fair'')
             \<and> (match_score m < 15 \<longrightarrow>
                  match_quality (save_results fmt keywords fm ! i) = ''Weak'')
             \<and> page_title (save_results fmt keywords fm ! i)
                  = take 150 (case match_title m of None \<Rightarrow> [] | Some s \<Rightarrow> s)
             \<and> h1_heading (save_results fmt keywords fm ! i)
                  = take 100 (case match_h1 m of None \<Rightarrow> [] | Some s \<Rightarrow> s)
             \<and> meta_description (save_results fmt keywords fm ! i)
                  = take 200 (case match_meta_description m of None \<Rightarrow> [] | Some s \<Rightarrow> s)
         | _ \<Rightarrow>
             matched_url (save_results fmt keywords fm ! i) = ''NO_MATCH''
             \<and> match_score_col (save_results fmt keywords fm ! i) = ''0.00''
             \<and> match_quality (save_results fmt keywords fm ! i) = ''None''))"
proof (intro conjI allI impI)
  show "length (save_results fmt keywords fm) = length keywords"
    by (simp add: save_results_def)
next
  have "keyword_col (result_row fmt fm k) = k" for k
    by (simp add: result_row_def Let_def split: option.splits)
  then show "map keyword_col (save_results fmt keywords fm) = keywords"
    by (simp add: save_results_def map_idI)
next
  fix i assume i: "i < length keywords"
  then have n: "save_results fmt keywords fm ! i = result_row fmt fm (keywords ! i)"
    by (simp add: save_results_def)
  show "case fm (keywords ! i) of
           Some (Some m) \<Rightarrow>
             matched_url (save_results fmt keywords fm ! i)
               = (if match_url m = [] then ''URL_ERROR'' else match_url m)
             \<and> match_score_col (save_results fmt keywords fm ! i) = fmt (match_score m)
             \<and> (40 \<le> match_score m \<longrightarrow>
                  match_quality (save_results fmt keywords fm ! i) = ''Excellent'')
             \<and> (25 \<le> match_score m \<and> match_score m < 40 \<longrightarrow>
                  match_quality (save_results fmt keywords fm ! i) = ''Good'')
             \<and> (15 \<le> match_score m \<and> match_score m < 25 \<longrightarrow>
                  match_quality (save_results fmt keywords fm ! i) = ''Fair'')
             \<and> (match_score m < 15 \<longrightarrow>
                  match_quality (save_results fmt keywords fm ! i) = ''Weak'')
             \<and> page_title (save_results fmt keywords fm ! i)
                  = take 150 (case match_title m of None \<Rightarrow> [] | Some s \<Rightarrow> s)
             \<and> h1_heading (save_results fmt keywords fm ! i)
                  = take 100 (case match_h1 m of None \<Rightarrow> [] | Some s \<Rightarrow> s)
             \<and> meta_description (save_results fmt keywords fm ! i)
                  = take 200 (case match_meta_description m of None \<Rightarrow> [] | Some s \<Rightarrow> s)
         | _ \<Rightarrow>
             matched_url (save_results fmt keywords fm ! i) = ''NO_MATCH''
             \<and> match_score_col (save_results fmt keywords fm ! i) = ''0.00''
             \<and> match_quality (save_results fmt keywords fm ! i) = ''None''"
    unfolding n
    by (simp add: result_row_def truncated_def Let_def split: option.splits)
qed

theorem save_results_rows_witness:
  "matched_url (save_results (\<lambda>s. ''30.00'') [''a'', ''b'']
      [''a'' \<mapsto> Some \<lparr>match_url = [], match_score = 30, match_title = Some ''T'',
                          match_h1 = None, match_meta_description = Some [],
                          match_row_data = Map.empty\<rparr>] ! 0) = ''URL_ERROR''
   \<and> match_quality (save_results (\<lambda>s. ''30.00'') [''a'', ''b'']
      [''a'' \<mapsto> Some \<lparr>match_url = [], match_score = 30, match_title = Some ''T'',
                          match_h1 = None, match_meta_description = Some [],
                          match_row_data = Map.empty\<rparr>] ! 0) = ''Good''
   \<and> matched_url (save_results (\<lambda>s. ''30.00'') [''a'', ''b'']
      [''a'' \<mapsto> Some \<lparr>match_url = [], match_score = 30, match_title = Some ''T'',
                          match_h1 = None, match_meta_description = Some [],
                          match_row_data = Map.empty\<rparr>] ! 1) = ''NO_MATCH''"
proof -
  let ?fm = "[''a'' \<mapsto> Some \<lparr>match_url = [], match_score = 30, match_title = Some ''T'',
                          match_h1 = None, match_meta_description = Some [],
                          match_row_data = Map.empty\<rparr>] :: store"
  note t = save_results_rows[of "\<lambda>s. ''30.00''" "[''a'', ''b'']" ?fm]
  from t have a: "\<forall>i < length [''a'', ''b''].
        (case ?fm ([''a'', ''b''] ! i) of
           Some (Some m) \<Rightarrow>
             matched_url (save_results (\<lambda>s. ''30.00'') [''a'', ''b''] ?fm ! i)
               = (if match_url m = [] then ''URL_ERROR'' else match_url m)
             \<and> (25 \<le> match_score m \<and> match_score m < 40 \<longrightarrow>
                  match_quality (save_results (\<lambda>s. ''30.00'') [''a'', ''b''] ?fm ! i) = ''Good'')
         | _ \<Rightarrow>
             matched_url (save_results (\<lambda>s. ''30.00'') [''a'', ''b''] ?fm ! i) = ''NO_MATCH'')"
    by (auto split: option.splits)
  from a[rule_format, of 0] a[rule_format, of 1] show ?thesis by simp
qed

end
